theory Spec2Isabelle
  imports
    Main
    "HOL-Library.Char_ord"
    "HOL-Library.List_Lexorder"
    "HOL-Library.FSet"
begin

section \<open>The hangman backend: word source, status projection, guess application\<close>

text \<open>
  The development embeds \<^verbatim>\<open>backend/utils.py\<close> and the game routes of
  \<^verbatim>\<open>backend/app.py\<close>. A Python \<^verbatim>\<open>str\<close> is a \<^typ>\<open>string\<close>; the methods
  \<^verbatim>\<open>strip\<close>, \<^verbatim>\<open>lower\<close> and \<^verbatim>\<open>isalpha\<close> are given on the ASCII range, which is
  where the word lists and the guesses of the game live (a character outside ASCII is
  neither a letter nor white space here, and \<^verbatim>\<open>lower\<close> leaves it alone). A Python
  \<^verbatim>\<open>int\<close> is an \<^typ>\<open>int\<close>, a \<^verbatim>\<open>set[str]\<close> a finite set of strings, a
  \<^verbatim>\<open>dict\<close> a map, and every \<^verbatim>\<open>raise\<close> a value \<open>Inl\<close> of a sum type.
\<close>

subsection \<open>Strings\<close>

text \<open>\<^verbatim>\<open>str.isspace\<close> on one ASCII character: TAB, LF, VT, FF, CR, FS, GS, RS, US, SPACE.\<close>

definition isspace :: "char \<Rightarrow> bool" where
  "isspace c = (let n = (of_char c :: nat) in (9 \<le> n \<and> n \<le> 13) \<or> (28 \<le> n \<and> n \<le> 32))"

definition isupper_char :: "char \<Rightarrow> bool" where
  "isupper_char c = (let n = (of_char c :: nat) in 65 \<le> n \<and> n \<le> 90)"

definition islower_char :: "char \<Rightarrow> bool" where
  "islower_char c = (let n = (of_char c :: nat) in 97 \<le> n \<and> n \<le> 122)"

definition isalpha_char :: "char \<Rightarrow> bool" where
  "isalpha_char c = (isupper_char c \<or> islower_char c)"

definition lower_char :: "char \<Rightarrow> char" where
  "lower_char c = (if isupper_char c then char_of (of_char c + (32 :: nat)) else c)"

text \<open>\<^verbatim>\<open>s.strip()\<close>: white space removed at both ends.\<close>

definition strip :: "string \<Rightarrow> string" where
  "strip s = rev (dropWhile isspace (rev (dropWhile isspace s)))"

text \<open>\<^verbatim>\<open>s.lower()\<close>.\<close>

definition lower :: "string \<Rightarrow> string" where
  "lower s = map lower_char s"

text \<open>\<^verbatim>\<open>s.isalpha()\<close>: at least one character, and every character a letter.\<close>

definition isalpha :: "string \<Rightarrow> bool" where
  "isalpha s = (s \<noteq> [] \<and> list_all isalpha_char s)"

text \<open>\<^verbatim>\<open>sub in s\<close> on strings: \<open>sub\<close> occurs in \<open>s\<close> as a contiguous piece.\<close>

fun str_contains :: "string \<Rightarrow> string \<Rightarrow> bool" where
  "str_contains [] sub = (sub = [])"
| "str_contains (c # s) sub = (take (length sub) (c # s) = sub \<or> str_contains s sub)"

text \<open>\<^verbatim>\<open>sep.join(pieces)\<close>.\<close>

fun str_join :: "string \<Rightarrow> string list \<Rightarrow> string" where
  "str_join sep [] = []"
| "str_join sep [p] = p"
| "str_join sep (p # q # ps) = p @ sep @ str_join sep (q # ps)"

subsection \<open>\<^verbatim>\<open>utils.py\<close>: the word source\<close>

text \<open>
  What the program raises. \<^verbatim>\<open>HTTPException\<close> carries its status code and which of the
  four messages of \<^verbatim>\<open>api_guess\<close> it was raised with.
\<close>

datatype detail = Unknown_game_id | Empty_guess | Invalid_letter | Invalid_word

datatype error =
    ValueError
  | FileNotFoundError
  | AssertionError
  | KeyError
  | HTTPException nat detail

text \<open>One entry of the \<^verbatim>\<open>DIFFICULTY\<close> table (the keys \<^verbatim>\<open>"lives"\<close> and \<^verbatim>\<open>"file"\<close> are \<open>cfg_lives\<close> and \<open>cfg_file\<close>).\<close>

record cfg =
  min_len :: int
  max_len :: int
  cfg_lives :: int
  cfg_file :: string

definition DIFFICULTY :: "string \<rightharpoonup> cfg" where
  "DIFFICULTY =
     [''easy'' \<mapsto> \<lparr>min_len = 5, max_len = 6, cfg_lives = 10, cfg_file = ''words_easy.txt''\<rparr>,
      ''normal'' \<mapsto> \<lparr>min_len = 6, max_len = 8, cfg_lives = 7, cfg_file = ''words_normal.txt''\<rparr>,
      ''hard'' \<mapsto> \<lparr>min_len = 7, max_len = 99, cfg_lives = 5, cfg_file = ''words_hard.txt''\<rparr>]"

text \<open>
  The loop of \<^verbatim>\<open>load_words\<close> over the lines of the file, with its two accumulators
  \<^verbatim>\<open>seen\<close> and \<^verbatim>\<open>words\<close>; each \<^verbatim>\<open>continue\<close> goes on with the accumulators as they are.
\<close>

fun load_loop :: "cfg \<Rightarrow> string list \<Rightarrow> string set \<Rightarrow> string list \<Rightarrow> string list" where
  "load_loop c [] seen words = words"
| "load_loop c (line # f) seen words =
     (let w = lower (strip line) in
      if w = [] \<or> \<not> isalpha w then load_loop c f seen words
      else if \<not> (min_len c \<le> int (length w) \<and> int (length w) \<le> max_len c)
        then load_loop c f seen words
      else if w \<in> seen then load_loop c f seen words
      else load_loop c f (insert w seen) (words @ [w]))"

text \<open>
  \<^verbatim>\<open>load_words\<close>. The directory of word lists is the map \<open>fs\<close> from a file name to the
  lines of that file; a name outside its domain is a file that does not exist.
\<close>

definition load_words :: "(string \<rightharpoonup> string list) \<Rightarrow> string \<Rightarrow> error + string list" where
  "load_words fs difficulty' =
     (case DIFFICULTY difficulty' of
        None \<Rightarrow> Inl ValueError
      | Some c \<Rightarrow>
          (case fs (cfg_file c) of
             None \<Rightarrow> Inl FileNotFoundError
           | Some f \<Rightarrow> Inr (load_loop c f {} [])))"

text \<open>
  \<^verbatim>\<open>choose_secret\<close>: the assertion fails on an empty list; otherwise
  \<^verbatim>\<open>random.choice\<close> returns the element at an index below the length, here the one
  the random draw \<open>rnd\<close> selects.
\<close>

definition choose_secret :: "nat \<Rightarrow> string list \<Rightarrow> error + string" where
  "choose_secret rnd words =
     (if words = [] then Inl AssertionError else Inr (words ! (rnd mod length words)))"

definition is_valid_letter :: "string \<Rightarrow> bool" where
  "is_valid_letter ch =
     (let ch' = strip ch in
      if length ch' \<noteq> 1 then False
      else if \<not> isalpha ch' then False
      else True)"

subsection \<open>\<^verbatim>\<open>utils.py\<close>: status projection\<close>

record GameStatus =
  masked :: string
  wrong :: "string list"
  status_lives :: int
  won :: bool
  lost :: bool

text \<open>
  \<^verbatim>\<open>mask_word\<close>: the loop appends, for each character \<open>c\<close> of the secret, \<open>c\<close> itself when
  the one-character string \<open>c\<close> is in the set and \<^verbatim>\<open>"_"\<close> otherwise; the pieces are joined
  with \<^verbatim>\<open>" "\<close>.
\<close>

definition mask_word :: "string \<Rightarrow> string fset \<Rightarrow> string" where
  "mask_word secret guessed_letters =
     str_join '' '' (map (\<lambda>c. if [c] |\<in>| guessed_letters then [c] else ''_'') secret)"

text \<open>\<^verbatim>\<open>set(secret)\<close>: iterating a string yields its one-character strings.\<close>

definition set_of_str :: "string \<Rightarrow> string fset" where
  "set_of_str s = fset_of_list (map (\<lambda>c. [c]) s)"

definition compute_status :: "string \<Rightarrow> string fset \<Rightarrow> int \<Rightarrow> GameStatus" where
  "compute_status secret guessed_letters lvs =
     (let masked' = mask_word secret guessed_letters;
          wrong_letters =
            sorted_list_of_fset (ffilter (\<lambda>ch. \<not> str_contains secret ch) guessed_letters);
          unique_letters_in_secret = set_of_str secret;
          won' = (unique_letters_in_secret |\<subseteq>| guessed_letters);
          lost' = (lvs \<le> 0)
      in \<lparr>masked = masked', wrong = wrong_letters, status_lives = lvs, won = won', lost = lost'\<rparr>)"

subsection \<open>\<^verbatim>\<open>app.py\<close>: sessions and the registry\<close>

text \<open>
  The request and response models and the session. A field name can belong to one
  record only, so \<^verbatim>\<open>game_id\<close> and \<^verbatim>\<open>difficulty\<close> carry the name of their request
  (\<open>guess_game_id\<close>, \<open>restart_game_id\<close>, \<open>new_difficulty\<close>, \<open>restart_difficulty\<close>),
  and the key \<^verbatim>\<open>"lives"\<close> of the status is \<open>status_lives\<close>, \<open>lives\<close> being the field
  of the session. \<^verbatim>\<open>GameResponse\<close> has the five fields of the status and the
  identifier.
\<close>

record NewGameRequest =
  new_difficulty :: string

record GuessRequest =
  guess_game_id :: string
  letter :: string

record RestartRequest =
  restart_game_id :: string
  restart_difficulty :: "string option"

record GameResponse = GameStatus +
  game_id :: string

record GameState =
  difficulty :: string
  secret :: string
  lives :: int
  guessed :: "string fset"

text \<open>The registry \<^verbatim>\<open>games\<close>.\<close>

type_synonym games = "string \<rightharpoonup> GameState"

text \<open>
  What a request reads from outside the registry: the word list files, the draw of
  \<^verbatim>\<open>random.choice\<close> and the value of \<^verbatim>\<open>uuid4().hex\<close>.
\<close>

record world =
  files :: "string \<rightharpoonup> string list"
  draw :: nat
  uuid :: string

definition new_game_state :: "world \<Rightarrow> string \<Rightarrow> error + GameState" where
  "new_game_state w difficulty' =
     (case load_words (files w) difficulty' of
        Inl e \<Rightarrow> Inl e
      | Inr words \<Rightarrow>
          (case choose_secret (draw w) words of
             Inl e \<Rightarrow> Inl e
           | Inr secret' \<Rightarrow>
               (case DIFFICULTY difficulty' of
                  None \<Rightarrow> Inl KeyError
                | Some c \<Rightarrow>
                    Inr \<lparr>difficulty = difficulty', secret = secret',
                         lives = cfg_lives c, guessed = {||}\<rparr>)))"

definition response :: "string \<Rightarrow> GameState \<Rightarrow> GameResponse" where
  "response gid gs =
     (let status = compute_status (secret gs) (guessed gs) (lives gs)
      in \<lparr>masked = masked status, wrong = wrong status, status_lives = status_lives status,
          won = won status, lost = lost status, game_id = gid\<rparr>)"

definition api_new :: "world \<Rightarrow> games \<Rightarrow> NewGameRequest \<Rightarrow> games \<times> (error + GameResponse)" where
  "api_new w g req =
     (let gid = uuid w in
      case new_game_state w (new_difficulty req) of
        Inl e \<Rightarrow> (g, Inl e)
      | Inr gs \<Rightarrow> (g(gid \<mapsto> gs), Inr (response gid gs)))"

text \<open>
  \<^verbatim>\<open>api_guess\<close>. The session object is mutated in place in the source; here the
  registry is returned with the session under the request's identifier replaced.
\<close>

definition api_guess :: "games \<Rightarrow> GuessRequest \<Rightarrow> games \<times> (error + GameResponse)" where
  "api_guess g req =
     (case g (guess_game_id req) of
        None \<Rightarrow> (g, Inl (HTTPException 404 Unknown_game_id))
      | Some gs \<Rightarrow>
          (let raw = lower (strip (letter req)) in
           if raw = [] then (g, Inl (HTTPException 400 Empty_guess))
           else
             (let snap = compute_status (secret gs) (guessed gs) (lives gs) in
              if won snap \<or> lost snap then (g, Inr (response (guess_game_id req) gs))
              else if length raw = 1 then
                (if \<not> is_valid_letter raw then (g, Inl (HTTPException 400 Invalid_letter))
                 else if raw |\<in>| guessed gs then (g, Inr (response (guess_game_id req) gs))
                 else
                   (let gs1 = gs\<lparr>guessed := finsert raw (guessed gs)\<rparr>;
                        gs2 = (if \<not> str_contains (secret gs1) raw
                               then gs1\<lparr>lives := lives gs1 - 1\<rparr> else gs1)
                    in (g(guess_game_id req \<mapsto> gs2), Inr (response (guess_game_id req) gs2))))
              else
                (if \<not> isalpha raw then (g, Inl (HTTPException 400 Invalid_word))
                 else if raw = secret gs then
                   (let gs1 = gs\<lparr>guessed := guessed gs |\<union>| set_of_str (secret gs)\<rparr>
                    in (g(guess_game_id req \<mapsto> gs1), Inr (response (guess_game_id req) gs1)))
                 else
                   (let gs1 = gs\<lparr>lives := lives gs - 2\<rparr>;
                        gs2 = (if lives gs1 < 0 then gs1\<lparr>lives := 0\<rparr> else gs1)
                    in (g(guess_game_id req \<mapsto> gs2), Inr (response (guess_game_id req) gs2)))))))"

text \<open>\<^verbatim>\<open>x or y\<close> on an optional string: \<open>y\<close> when \<open>x\<close> is \<^verbatim>\<open>None\<close> or empty.\<close>

definition or_else :: "string option \<Rightarrow> string \<Rightarrow> string" where
  "or_else x y = (case x of None \<Rightarrow> y | Some s \<Rightarrow> if s = [] then y else s)"

definition api_restart :: "world \<Rightarrow> games \<Rightarrow> RestartRequest \<Rightarrow> games \<times> (error + GameResponse)" where
  "api_restart w g req =
     (case g (restart_game_id req) of
        Some prev \<Rightarrow>
          (let diff = or_else (restart_difficulty req) (difficulty prev) in
           case new_game_state w diff of
             Inl e \<Rightarrow> (g, Inl e)
           | Inr gs \<Rightarrow> (g(restart_game_id req \<mapsto> gs), Inr (response (restart_game_id req) gs)))
      | None \<Rightarrow>
          (let new_gid = uuid w;
               diff = or_else (restart_difficulty req) ''normal'' in
           case new_game_state w diff of
             Inl e \<Rightarrow> (g, Inl e)
           | Inr gs \<Rightarrow> (g(new_gid \<mapsto> gs), Inr (response new_gid gs))))"

text \<open>A sequence of guesses, one request after the other, with what each returned.\<close>

fun api_guesses :: "games \<Rightarrow> GuessRequest list \<Rightarrow> games \<times> (error + GameResponse) list" where
  "api_guesses g [] = (g, [])"
| "api_guesses g (req # reqs) =
     (let (g1, out) = api_guess g req;
          (g2, outs) = api_guesses g1 reqs
      in (g2, out # outs))"

text \<open>The derived state of a session: in progress when the snapshot is neither won nor lost.\<close>

definition in_progress :: "GameState \<Rightarrow> bool" where
  "in_progress gs =
     (let snap = compute_status (secret gs) (guessed gs) (lives gs)
      in \<not> (won snap \<or> lost snap))"

text \<open>
  The registries the program can hold: it starts empty and changes only through the
  three routes, whatever the requests and whatever the files, the random draws and the
  generated identifiers are.
\<close>

inductive reachable :: "games \<Rightarrow> bool" where
  start: "reachable Map.empty"
| new: "reachable g \<Longrightarrow> reachable (fst (api_new w g nreq))"
| guess: "reachable g \<Longrightarrow> reachable (fst (api_guess g req))"
| restart: "reachable g \<Longrightarrow> reachable (fst (api_restart w g rreq))"

subsection \<open>The status projection as the specification words it\<close>

text \<open>
  The specification takes the guessed letters as a set of letters. \<open>letters G\<close> is that
  set as the program holds it: one one-character string per letter.
\<close>

definition letters :: "char fset \<Rightarrow> string fset" where
  "letters G = (\<lambda>c. [c]) |`| G"

text \<open>The character shown at one position: the character itself once guessed, else the placeholder.\<close>

definition spec_reveal :: "char fset \<Rightarrow> char \<Rightarrow> char" where
  "spec_reveal G c = (if c |\<in>| G then c else CHR ''_'')"

text \<open>The masked string: the positions in order, a single space between two neighbours.\<close>

fun spec_masked :: "string \<Rightarrow> char fset \<Rightarrow> string" where
  "spec_masked [] G = []"
| "spec_masked [c] G = [spec_reveal G c]"
| "spec_masked (c # d # cs) G = spec_reveal G c # CHR '' '' # spec_masked (d # cs) G"

text \<open>The wrong letters: the guessed letters that occur nowhere in the secret, ascending.\<close>

definition spec_wrong :: "string \<Rightarrow> char fset \<Rightarrow> char list" where
  "spec_wrong sec G = sorted_list_of_fset (ffilter (\<lambda>c. c \<notin> set sec) G)"

definition spec_status :: "string \<Rightarrow> char fset \<Rightarrow> int \<Rightarrow> GameStatus" where
  "spec_status sec G lvs =
     \<lparr>masked = spec_masked sec G,
      wrong = map (\<lambda>c. [c]) (spec_wrong sec G),
      status_lives = lvs,
      won = (set sec \<subseteq> fset G),
      lost = (lvs \<le> 0)\<rparr>"

subsection \<open>The word source as the specification words it\<close>

text \<open>A word the tier admits: lowercase letters only, at least one, the length within the bounds.\<close>

definition spec_word_ok :: "cfg \<Rightarrow> string \<Rightarrow> bool" where
  "spec_word_ok c w =
     (w \<noteq> [] \<and> list_all islower_char w
      \<and> min_len c \<le> int (length w) \<and> int (length w) \<le> max_len c)"

text \<open>Duplicates removed, the first occurrence of each element kept in its place.\<close>

fun first_occurrences :: "'a list \<Rightarrow> 'a list" where
  "first_occurrences [] = []"
| "first_occurrences (x # xs) = x # first_occurrences (filter (\<lambda>y. y \<noteq> x) xs)"

text \<open>
  The sequence of words for a tier: the lines in their lowercased form without the
  surrounding white space, those kept that are words the tier admits, without duplicates.
\<close>

definition spec_words :: "cfg \<Rightarrow> string list \<Rightarrow> string list" where
  "spec_words c f = first_occurrences (filter (spec_word_ok c) (map (\<lambda>line. lower (strip line)) f))"

subsection \<open>Facts about strings\<close>

lemma str_contains_single: "str_contains s [c] = (c \<in> set s)"
  by (induction s) auto

lemma mask_word_spec: "mask_word sec (letters G) = spec_masked sec G"
  by (induction sec G rule: spec_masked.induct)
     (auto simp: mask_word_def letters_def spec_reveal_def)

lemma single_le: "([c::char] \<le> [d]) = (c \<le> d)"
  by (auto simp: list_le_def list_less_def)

lemma sorted_map_single: "sorted (xs :: char list) \<Longrightarrow> sorted (map (\<lambda>c. [c]) xs)"
  by (induction xs) (auto simp: single_le)

subsection \<open>The status projection\<close>

text \<open>
  The wrong-letter list of the program and that of the specification are both sorted and
  free of repetitions and hold the same strings, so they are the same list.
\<close>

lemma wrong_spec:
  "sorted_list_of_fset (ffilter (\<lambda>ch. \<not> str_contains sec ch) (letters G))
     = map (\<lambda>c. [c]) (spec_wrong sec G)"
proof (rule sorted_distinct_set_unique)
  show "sorted (sorted_list_of_fset (ffilter (\<lambda>ch. \<not> str_contains sec ch) (letters G)))"
    by (simp add: sorted_list_of_fset.rep_eq)
  show "distinct (sorted_list_of_fset (ffilter (\<lambda>ch. \<not> str_contains sec ch) (letters G)))"
    by (simp add: sorted_list_of_fset.rep_eq)
  show "sorted (map (\<lambda>c. [c]) (spec_wrong sec G))"
    by (simp add: sorted_map_single spec_wrong_def sorted_list_of_fset.rep_eq)
  show "distinct (map (\<lambda>c. [c]) (spec_wrong sec G))"
    by (simp add: distinct_map inj_on_def spec_wrong_def sorted_list_of_fset.rep_eq)
  show "set (sorted_list_of_fset (ffilter (\<lambda>ch. \<not> str_contains sec ch) (letters G)))
      = set (map (\<lambda>c. [c]) (spec_wrong sec G))"
    by (auto simp: letters_def spec_wrong_def str_contains_single)
qed

lemma won_spec: "(set_of_str sec |\<subseteq>| letters G) = (set sec \<subseteq> fset G)"
  by (auto simp: set_of_str_def letters_def fset_of_list.rep_eq less_eq_fset.rep_eq)

text \<open>The masked string, position by position.\<close>

lemma spec_masked_length: "length (spec_masked sec G) = 2 * length sec - 1"
  by (induction sec G rule: spec_masked.induct) auto

lemma spec_masked_even:
  "i < length sec \<Longrightarrow> spec_masked sec G ! (2 * i) = spec_reveal G (sec ! i)"
proof (induction sec G arbitrary: i rule: spec_masked.induct)
  case (1 G)
  then show ?case by simp
next
  case (2 c G)
  then show ?case by simp
next
  case (3 c d cs G)
  show ?case
  proof (cases i)
    case 0
    then show ?thesis by simp
  next
    case (Suc j)
    with "3.prems" have "j < length (d # cs)" by simp
    from "3.IH" [OF this] Suc show ?thesis by simp
  qed
qed

lemma spec_masked_odd:
  "Suc i < length sec \<Longrightarrow> spec_masked sec G ! (2 * i + 1) = CHR '' ''"
proof (induction sec G arbitrary: i rule: spec_masked.induct)
  case (1 G)
  then show ?case by simp
next
  case (2 c G)
  then show ?case by simp
next
  case (3 c d cs G)
  show ?case
  proof (cases i)
    case 0
    then show ?thesis by simp
  next
    case (Suc j)
    with "3.prems" have "Suc j < length (d # cs)" by simp
    from "3.IH" [OF this] Suc show ?thesis by simp
  qed
qed

lemma wrong_sorted:
  "sorted (wrong (compute_status sec G' lvs)) \<and> distinct (wrong (compute_status sec G' lvs))
   \<and> set (wrong (compute_status sec G' lvs)) = {ch. ch |\<in>| G' \<and> \<not> str_contains sec ch}"
  by (auto simp: compute_status_def sorted_list_of_fset.rep_eq)

text \<open>
  C1. \<^verbatim>\<open>compute_status\<close> is the projection the specification describes: on every
  secret, every set of guessed letters and every number of lives it returns the status
  of the reference definition. The masked string has, for each position of the secret,
  the character of that position when it is guessed and the placeholder otherwise, and a
  single space between two positions; the wrong letters are the guessed letters that
  occur nowhere in the secret, in ascending order and without repetition; \<open>won\<close>
  holds exactly when every letter of the secret is guessed and \<open>lost\<close> exactly when
  the lives are at most 0. The two flags are independent: with every letter of the
  secret guessed and no life left both are true.
\<close>

theorem compute_status_refines_spec:
  "compute_status sec (letters G) lvs = spec_status sec G lvs
   \<and> length (masked (compute_status sec (letters G) lvs)) = 2 * length sec - 1
   \<and> (\<forall>i < length sec.
         masked (compute_status sec (letters G) lvs) ! (2 * i)
           = (if sec ! i |\<in>| G then sec ! i else CHR ''_''))
   \<and> (\<forall>i. Suc i < length sec \<longrightarrow>
         masked (compute_status sec (letters G) lvs) ! (2 * i + 1) = CHR '' '')
   \<and> sorted (wrong (compute_status sec (letters G) lvs))
   \<and> distinct (wrong (compute_status sec (letters G) lvs))
   \<and> set (wrong (compute_status sec (letters G) lvs)) = {[c] | c. c |\<in>| G \<and> c \<notin> set sec}
   \<and> won (compute_status sec (letters G) lvs) = (set sec \<subseteq> fset G)
   \<and> lost (compute_status sec (letters G) lvs) = (lvs \<le> 0)
   \<and> won (compute_status sec (set_of_str sec) 0)
   \<and> lost (compute_status sec (set_of_str sec) 0)"
proof -
  have eq: "compute_status sec (letters G) lvs = spec_status sec G lvs"
    by (simp add: compute_status_def spec_status_def mask_word_spec wrong_spec won_spec)
  have m: "masked (compute_status sec (letters G) lvs) = spec_masked sec G"
    by (simp add: eq spec_status_def)
  have w: "set (wrong (compute_status sec (letters G) lvs)) = {[c] | c. c |\<in>| G \<and> c \<notin> set sec}"
    using wrong_sorted [of sec "letters G" lvs]
    by (auto simp: letters_def str_contains_single)
  have len: "length (masked (compute_status sec (letters G) lvs)) = 2 * length sec - 1"
    by (simp add: m spec_masked_length)
  have even: "\<forall>i < length sec.
         masked (compute_status sec (letters G) lvs) ! (2 * i)
           = (if sec ! i |\<in>| G then sec ! i else CHR ''_'')"
    by (simp add: m spec_masked_even spec_reveal_def)
  have odd: "\<forall>i. Suc i < length sec \<longrightarrow>
         masked (compute_status sec (letters G) lvs) ! (2 * i + 1) = CHR '' ''"
    using spec_masked_odd [of _ sec G] by (simp add: m)
  have srt: "sorted (wrong (compute_status sec (letters G) lvs))"
    and dst: "distinct (wrong (compute_status sec (letters G) lvs))"
    using wrong_sorted [of sec "letters G" lvs] by simp_all
  have wn: "won (compute_status sec (letters G) lvs) = (set sec \<subseteq> fset G)"
    and ls: "lost (compute_status sec (letters G) lvs) = (lvs \<le> 0)"
    by (simp_all add: eq spec_status_def)
  have both: "won (compute_status sec (set_of_str sec) 0)"
    "lost (compute_status sec (set_of_str sec) 0)"
    by (simp_all add: compute_status_def)
  show ?thesis
    by (intro conjI) (rule eq len even odd srt dst w wn ls both)+
qed

theorem compute_status_refines_spec_witness:
  "compute_status ''cat'' (letters {|CHR ''z'', CHR ''c'', CHR ''b''|}) 3
     = \<lparr>masked = ''c _ _'', wrong = [''b'', ''z''], status_lives = 3, won = False, lost = False\<rparr>"
proof -
  have w: "spec_wrong ''cat'' {|CHR ''z'', CHR ''c'', CHR ''b''|} = ''bz''"
    unfolding spec_wrong_def by code_simp
  show ?thesis
    using compute_status_refines_spec [of "''cat''" "{|CHR ''z'', CHR ''c'', CHR ''b''|}" 3]
    by (simp add: spec_status_def spec_reveal_def w)
qed

subsection \<open>Guess application: the paths of \<^verbatim>\<open>api_guess\<close>\<close>

lemma alpha_not_space: "isalpha_char c \<Longrightarrow> \<not> isspace c"
  by (auto simp: isalpha_char_def isupper_char_def islower_char_def isspace_def Let_def)

lemma strip_single: "strip [c] = (if isspace c then [] else [c])"
  by (simp add: strip_def)

lemma is_valid_letter_single:
  "length raw = 1 \<Longrightarrow> is_valid_letter raw = isalpha raw"
proof -
  assume "length raw = 1"
  then obtain c where raw: "raw = [c]"
    by (cases raw) auto
  show ?thesis
    using alpha_not_space [of c]
    by (auto simp: raw is_valid_letter_def strip_single isalpha_def)
qed

lemma api_guess_unknown:
  "g (guess_game_id req) = None \<Longrightarrow>
   api_guess g req = (g, Inl (HTTPException 404 Unknown_game_id))"
  by (simp add: api_guess_def)

lemma api_guess_empty:
  "g (guess_game_id req) = Some gs \<Longrightarrow> lower (strip (letter req)) = [] \<Longrightarrow>
   api_guess g req = (g, Inl (HTTPException 400 Empty_guess))"
  by (simp add: api_guess_def)

lemma api_guess_ended:
  "g (guess_game_id req) = Some gs \<Longrightarrow> lower (strip (letter req)) \<noteq> [] \<Longrightarrow>
   \<not> in_progress gs \<Longrightarrow>
   api_guess g req = (g, Inr (response (guess_game_id req) gs))"
  by (simp add: api_guess_def in_progress_def Let_def)



lemma api_guess_in_progress:
  assumes "g (guess_game_id req) = Some gs" and "in_progress gs"
    and "lower (strip (letter req)) = raw" and "raw \<noteq> []"
  shows "api_guess g req =
    (if length raw = 1 then
       (if \<not> isalpha raw then (g, Inl (HTTPException 400 Invalid_letter))
        else if raw |\<in>| guessed gs then (g, Inr (response (guess_game_id req) gs))
        else (g(guess_game_id req \<mapsto>
                  gs\<lparr>guessed := finsert raw (guessed gs),
                      lives := (if str_contains (secret gs) raw then lives gs else lives gs - 1)\<rparr>),
              Inr (response (guess_game_id req)
                  (gs\<lparr>guessed := finsert raw (guessed gs),
                      lives := (if str_contains (secret gs) raw then lives gs else lives gs - 1)\<rparr>))))
     else
       (if \<not> isalpha raw then (g, Inl (HTTPException 400 Invalid_word))
        else if raw = secret gs then
          (g(guess_game_id req \<mapsto> gs\<lparr>guessed := guessed gs |\<union>| set_of_str (secret gs)\<rparr>),
           Inr (response (guess_game_id req) (gs\<lparr>guessed := guessed gs |\<union>| set_of_str (secret gs)\<rparr>)))
        else
          (g(guess_game_id req \<mapsto> gs\<lparr>lives := max 0 (lives gs - 2)\<rparr>),
           Inr (response (guess_game_id req) (gs\<lparr>lives := max 0 (lives gs - 2)\<rparr>)))))"
proof -
  have snap: "\<not> (won (compute_status (secret gs) (guessed gs) (lives gs))
              \<or> lost (compute_status (secret gs) (guessed gs) (lives gs)))"
    using assms(2) by (simp add: in_progress_def Let_def)
  show ?thesis
  proof (cases "length raw = 1")
    case True
    then show ?thesis
      using assms(1,3,4) snap
      by (simp add: api_guess_def Let_def is_valid_letter_single)
  next
    case False
    then show ?thesis
      using assms(1,3,4) snap
      by (simp add: api_guess_def Let_def max_def)
  qed
qed


lemma response_status:
  "GameStatus.truncate (response gid gs) = compute_status (secret gs) (guessed gs) (lives gs)"
  by (simp add: response_def GameStatus.truncate_def Let_def)

lemma in_progress_lives: "in_progress gs \<Longrightarrow> 0 < lives gs"
  by (simp add: in_progress_def compute_status_def Let_def)

lemma won_after_right_word:
  "won (response gid (gs\<lparr>guessed := guessed gs |\<union>| set_of_str (secret gs)\<rparr>))"
  by (simp add: response_def compute_status_def Let_def)

subsection \<open>Guesses after the end of a game\<close>



subsection \<open>Full-word guesses\<close>

text \<open>
  C4. In a session in progress, a normalised alphabetic guess of two or more characters
  that equals the secret adds every letter of the secret to the guessed set and changes
  nothing else: the response reports \<open>won\<close> and the lives the session had. One that
  differs from the secret changes the lives only, to the lives less 2, or to 0 when that
  would be negative.
\<close>

theorem word_guess:
  assumes "g (guess_game_id req) = Some gs" and "in_progress gs"
    and "lower (strip (letter req)) = raw" and "2 \<le> length raw" and "isalpha raw"
  shows "(raw = secret gs \<longrightarrow>
            api_guess g req =
              (g(guess_game_id req \<mapsto> gs\<lparr>guessed := guessed gs |\<union>| set_of_str (secret gs)\<rparr>),
               Inr (response (guess_game_id req)
                     (gs\<lparr>guessed := guessed gs |\<union>| set_of_str (secret gs)\<rparr>)))
            \<and> won (response (guess_game_id req)
                     (gs\<lparr>guessed := guessed gs |\<union>| set_of_str (secret gs)\<rparr>))
            \<and> status_lives (response (guess_game_id req)
                     (gs\<lparr>guessed := guessed gs |\<union>| set_of_str (secret gs)\<rparr>)) = lives gs)
       \<and> (raw \<noteq> secret gs \<longrightarrow>
            api_guess g req =
              (g(guess_game_id req \<mapsto> gs\<lparr>lives := max 0 (lives gs - 2)\<rparr>),
               Inr (response (guess_game_id req) (gs\<lparr>lives := max 0 (lives gs - 2)\<rparr>)))
            \<and> status_lives (response (guess_game_id req) (gs\<lparr>lives := max 0 (lives gs - 2)\<rparr>))
                = max 0 (lives gs - 2))"
proof -
  have ne: "raw \<noteq> []" and len: "length raw \<noteq> 1"
    using assms(4) by auto
  have eq: "api_guess g req =
      (if raw = secret gs then
          (g(guess_game_id req \<mapsto> gs\<lparr>guessed := guessed gs |\<union>| set_of_str (secret gs)\<rparr>),
           Inr (response (guess_game_id req) (gs\<lparr>guessed := guessed gs |\<union>| set_of_str (secret gs)\<rparr>)))
        else
          (g(guess_game_id req \<mapsto> gs\<lparr>lives := max 0 (lives gs - 2)\<rparr>),
           Inr (response (guess_game_id req) (gs\<lparr>lives := max 0 (lives gs - 2)\<rparr>))))"
    using api_guess_in_progress [of g req gs raw] assms(1,2,3,5) ne len by simp
  have lv: "\<And>gs'. status_lives (response (guess_game_id req) gs') = lives gs'"
    by (simp add: response_def compute_status_def Let_def)
  show ?thesis
    using eq won_after_right_word [of "guess_game_id req" gs] by (simp add: lv)
qed

theorem word_guess_witness:
  "api_guess [''game0001'' \<mapsto> \<lparr>difficulty = ''easy'', secret = ''apple'', lives = 1, guessed = {|''a'', ''x''|}\<rparr>]
      \<lparr>guess_game_id = ''game0001'', letter = '' Apple ''\<rparr>
    = ([''game0001'' \<mapsto> \<lparr>difficulty = ''easy'', secret = ''apple'', lives = 1,
           guessed = {|''a'', ''x''|} |\<union>| set_of_str ''apple''\<rparr>],
       Inr \<lparr>masked = ''a p p l e'', wrong = [''x''], status_lives = 1, won = True, lost = False,
           game_id = ''game0001''\<rparr>)
   \<and> api_guess [''game0001'' \<mapsto> \<lparr>difficulty = ''easy'', secret = ''apple'', lives = 1, guessed = {|''a'', ''x''|}\<rparr>]
      \<lparr>guess_game_id = ''game0001'', letter = ''grape''\<rparr>
    = ([''game0001'' \<mapsto> \<lparr>difficulty = ''easy'', secret = ''apple'', lives = 0, guessed = {|''a'', ''x''|}\<rparr>],
       Inr \<lparr>masked = ''a _ _ _ _'', wrong = [''x''], status_lives = 0, won = False, lost = True,
           game_id = ''game0001''\<rparr>)"
proof -
  let ?gs = "\<lparr>difficulty = ''easy'', secret = ''apple'', lives = 1, guessed = {|''a'', ''x''|}\<rparr>"
  let ?g = "[''game0001'' \<mapsto> ?gs]"
  have p: "in_progress ?gs"
    by code_simp
  have n1: "lower (strip '' Apple '') = ''apple''" and n2: "lower (strip ''grape'') = ''grape''"
    by code_simp+
  have a1: "isalpha ''apple''" and a2: "isalpha ''grape''"
    by code_simp+
  have r1: "response ''game0001'' (?gs\<lparr>guessed := guessed ?gs |\<union>| set_of_str (secret ?gs)\<rparr>)
      = \<lparr>masked = ''a p p l e'', wrong = [''x''], status_lives = 1, won = True, lost = False,
           game_id = ''game0001''\<rparr>"
    by code_simp
  have r2: "response ''game0001'' (?gs\<lparr>lives := max 0 (lives ?gs - 2)\<rparr>)
      = \<lparr>masked = ''a _ _ _ _'', wrong = [''x''], status_lives = 0, won = False, lost = True,
           game_id = ''game0001''\<rparr>"
    by code_simp
  show ?thesis
    using word_guess [of ?g "\<lparr>guess_game_id = ''game0001'', letter = '' Apple ''\<rparr>" ?gs "''apple''"]
      word_guess [of ?g "\<lparr>guess_game_id = ''game0001'', letter = ''grape''\<rparr>" ?gs "''grape''"]
      p n1 n2 a1 a2 r1 r2
    by simp
qed

text \<open>
  C10. A wrong full-word guess in a session in progress writes the lives and nothing
  else: the session stored afterwards has the secret, the difficulty and the guessed set
  it had, so the masked string and the wrong-letter list of the response are those of
  the status before the guess.
\<close>

theorem wrong_word_frame:
  assumes "g (guess_game_id req) = Some gs" and "in_progress gs"
    and "lower (strip (letter req)) = raw" and "2 \<le> length raw" and "isalpha raw"
    and "raw \<noteq> secret gs"
  shows "\<exists>gs' r. api_guess g req = (g(guess_game_id req \<mapsto> gs'), Inr r)
      \<and> secret gs' = secret gs \<and> difficulty gs' = difficulty gs \<and> guessed gs' = guessed gs
      \<and> masked r = masked (response (guess_game_id req) gs)
      \<and> wrong r = wrong (response (guess_game_id req) gs)"
proof -
  have ne: "raw \<noteq> []" and len: "length raw \<noteq> 1"
    using assms(4) by auto
  have eq: "api_guess g req =
          (g(guess_game_id req \<mapsto> gs\<lparr>lives := max 0 (lives gs - 2)\<rparr>),
           Inr (response (guess_game_id req) (gs\<lparr>lives := max 0 (lives gs - 2)\<rparr>)))"
    using api_guess_in_progress [of g req gs raw] assms(1,2,3,5,6) ne len by simp
  have "masked (response (guess_game_id req) (gs\<lparr>lives := max 0 (lives gs - 2)\<rparr>))
          = masked (response (guess_game_id req) gs)"
    and "wrong (response (guess_game_id req) (gs\<lparr>lives := max 0 (lives gs - 2)\<rparr>))
          = wrong (response (guess_game_id req) gs)"
    by (simp_all add: response_def compute_status_def Let_def)
  with eq show ?thesis
    by (intro exI [of _ "gs\<lparr>lives := max 0 (lives gs - 2)\<rparr>"]
          exI [of _ "response (guess_game_id req) (gs\<lparr>lives := max 0 (lives gs - 2)\<rparr>)"])
       simp
qed

theorem wrong_word_frame_witness:
  "\<exists>gs' r. api_guess [''game0001'' \<mapsto> \<lparr>difficulty = ''normal'', secret = ''banana'', lives = 7, guessed = {|''b'', ''q''|}\<rparr>]
      \<lparr>guess_game_id = ''game0001'', letter = ''Bandit''\<rparr>
       = ([''game0001'' \<mapsto> \<lparr>difficulty = ''normal'', secret = ''banana'', lives = 7, guessed = {|''b'', ''q''|}\<rparr>]
            (''game0001'' \<mapsto> gs'), Inr r)
     \<and> secret gs' = ''banana'' \<and> difficulty gs' = ''normal'' \<and> guessed gs' = {|''b'', ''q''|}
     \<and> masked r = ''b _ _ _ _ _'' \<and> wrong r = [''q'']"
proof -
  let ?gs = "\<lparr>difficulty = ''normal'', secret = ''banana'', lives = 7, guessed = {|''b'', ''q''|}\<rparr>"
  have p: "in_progress ?gs"
    by code_simp
  have n: "lower (strip ''Bandit'') = ''bandit''"
    by code_simp
  have a: "isalpha ''bandit''"
    by code_simp
  have r: "masked (response ''game0001'' ?gs) = ''b _ _ _ _ _''"
     "wrong (response ''game0001'' ?gs) = [''q'']"
    by code_simp+
  show ?thesis
    using wrong_word_frame [of "[''game0001'' \<mapsto> ?gs]"
        "\<lparr>guess_game_id = ''game0001'', letter = ''Bandit''\<rparr>" ?gs "''bandit''"] p n a r
    by simp
qed

subsection \<open>Repeated letters\<close>

text \<open>
  C7. In a session in progress, guessing a single letter that is already in the guessed
  set changes nothing: the registry is returned as it was (no life lost, the guessed set
  as before), the response carries the status of the session as it stood before the
  guess, and guessing the letter once more gives the same result again.
\<close>

theorem repeated_letter_noop:
  assumes "g (guess_game_id req) = Some gs" and "in_progress gs"
    and "lower (strip (letter req)) = raw" and "length raw = 1" and "isalpha raw"
    and "raw |\<in>| guessed gs"
  shows "api_guess g req = (g, Inr (response (guess_game_id req) gs))
      \<and> GameStatus.truncate (response (guess_game_id req) gs)
          = compute_status (secret gs) (guessed gs) (lives gs)
      \<and> api_guess (fst (api_guess g req)) req = api_guess g req"
proof -
  have ne: "raw \<noteq> []"
    using assms(4) by auto
  have eq: "api_guess g req = (g, Inr (response (guess_game_id req) gs))"
    using api_guess_in_progress [of g req gs raw] assms ne by simp
  then show ?thesis
    by (simp add: response_status)
qed

theorem repeated_letter_noop_witness:
  "api_guess [''game0001'' \<mapsto> \<lparr>difficulty = ''normal'', secret = ''banana'', lives = 6, guessed = {|''b'', ''q''|}\<rparr>]
      \<lparr>guess_game_id = ''game0001'', letter = ''Q''\<rparr>
    = ([''game0001'' \<mapsto> \<lparr>difficulty = ''normal'', secret = ''banana'', lives = 6, guessed = {|''b'', ''q''|}\<rparr>],
       Inr \<lparr>masked = ''b _ _ _ _ _'', wrong = [''q''], status_lives = 6, won = False, lost = False,
           game_id = ''game0001''\<rparr>)"
proof -
  let ?gs = "\<lparr>difficulty = ''normal'', secret = ''banana'', lives = 6, guessed = {|''b'', ''q''|}\<rparr>"
  have p: "in_progress ?gs"
    by code_simp
  have n: "lower (strip ''Q'') = ''q''"
    by code_simp
  have a: "isalpha ''q''"
    by code_simp
  have r: "response ''game0001'' ?gs
      = \<lparr>masked = ''b _ _ _ _ _'', wrong = [''q''], status_lives = 6, won = False, lost = False,
           game_id = ''game0001''\<rparr>"
    by code_simp
  show ?thesis
    using repeated_letter_noop [of "[''game0001'' \<mapsto> ?gs]"
        "\<lparr>guess_game_id = ''game0001'', letter = ''Q''\<rparr>" ?gs "''q''"] p n a r
    by simp
qed

subsection \<open>Rejected guesses\<close>




subsection \<open>Lives\<close>

lemma response_lives: "status_lives (response gid gs) = lives gs"
  by (simp add: response_def compute_status_def Let_def)

text \<open>
  One guess either leaves the registry as it is, or replaces a session in progress by one
  whose lives are not negative and not more than before.
\<close>

lemma api_guess_touch:
  "(fst (api_guess g req) = g
      \<and> (\<forall>r. snd (api_guess g req) = Inr r \<longrightarrow>
            (\<exists>gs. g (guess_game_id req) = Some gs \<and> r = response (guess_game_id req) gs)))
   \<or> (\<exists>gs gs'. g (guess_game_id req) = Some gs \<and> in_progress gs
        \<and> api_guess g req = (g(guess_game_id req \<mapsto> gs'), Inr (response (guess_game_id req) gs'))
        \<and> 0 \<le> lives gs' \<and> lives gs' \<le> lives gs)"
proof (cases "g (guess_game_id req)")
  case None
  then show ?thesis by (simp add: api_guess_unknown)
next
  case (Some gs)
  show ?thesis
  proof (cases "lower (strip (letter req)) = []")
    case True
    with Some show ?thesis by (simp add: api_guess_empty)
  next
    case False
    show ?thesis
    proof (cases "in_progress gs")
      case True
      note eq = api_guess_in_progress [of g req gs "lower (strip (letter req))", OF Some True refl False]
      have pos: "0 < lives gs"
        using True by (rule in_progress_lives)
      show ?thesis
        using Some True pos unfolding eq by (auto split: if_splits)
    next
      case nip: False
      with Some False show ?thesis by (simp add: api_guess_ended)
    qed
  qed
qed

lemma api_guess_inv:
  assumes "\<forall>gid gs. g gid = Some gs \<longrightarrow> 0 \<le> lives gs"
  shows "\<forall>gid gs. fst (api_guess g req) gid = Some gs \<longrightarrow> 0 \<le> lives gs"
  using api_guess_touch [of g req] assms
  by (auto split: if_splits)

lemma api_guess_response_lives:
  assumes "\<forall>gid gs. g gid = Some gs \<longrightarrow> 0 \<le> lives gs"
    and "snd (api_guess g req) = Inr r"
  shows "0 \<le> status_lives r"
  using api_guess_touch [of g req] assms
  by (auto simp: response_lives)

lemma api_guesses_inv:
  assumes "\<forall>gid gs. g gid = Some gs \<longrightarrow> 0 \<le> lives gs"
  shows "(\<forall>gid gs. fst (api_guesses g reqs) gid = Some gs \<longrightarrow> 0 \<le> lives gs)
       \<and> (\<forall>r. Inr r \<in> set (snd (api_guesses g reqs)) \<longrightarrow> 0 \<le> status_lives r)"
  using assms
proof (induction reqs arbitrary: g)
  case Nil
  then show ?case by simp
next
  case (Cons req reqs)
  have step: "\<forall>gid gs. fst (api_guess g req) gid = Some gs \<longrightarrow> 0 \<le> lives gs"
    using Cons.prems by (rule api_guess_inv)
  have out: "\<And>r. snd (api_guess g req) = Inr r \<Longrightarrow> 0 \<le> status_lives r"
    using Cons.prems by (rule api_guess_response_lives)
  from Cons.IH [OF step] out show ?case
    by (auto simp: split_beta Let_def)
qed

lemma DIFFICULTY_lives: "DIFFICULTY d = Some c \<Longrightarrow> 0 < cfg_lives c"
  by (auto simp: DIFFICULTY_def split: if_splits)

lemma new_game_state_lives: "new_game_state w d = Inr gs \<Longrightarrow> 0 < lives gs"
  by (auto simp: new_game_state_def split: sum.splits option.splits dest: DIFFICULTY_lives)

lemma api_new_inv:
  assumes "\<forall>gid gs. g gid = Some gs \<longrightarrow> 0 \<le> lives gs"
  shows "\<forall>gid gs. fst (api_new w g nreq) gid = Some gs \<longrightarrow> 0 \<le> lives gs"
  using assms
  by (auto simp: api_new_def Let_def split: sum.splits if_splits dest: new_game_state_lives)

lemma api_restart_inv:
  assumes "\<forall>gid gs. g gid = Some gs \<longrightarrow> 0 \<le> lives gs"
  shows "\<forall>gid gs. fst (api_restart w g rreq) gid = Some gs \<longrightarrow> 0 \<le> lives gs"
  using assms
  by (auto simp: api_restart_def Let_def split: sum.splits option.splits if_splits
      dest: new_game_state_lives)

lemma reachable_lives: "reachable g \<Longrightarrow> \<forall>gid gs. g gid = Some gs \<longrightarrow> 0 \<le> lives gs"
proof (induction rule: reachable.induct)
  case start
  show ?case by simp
next
  case (new g w nreq)
  from new.IH show ?case by (rule api_new_inv)
next
  case (guess g req)
  from guess.IH show ?case by (rule api_guess_inv)
next
  case (restart g w rreq)
  from restart.IH show ?case by (rule api_restart_inv)
qed

text \<open>
  C2. In every registry the program can reach, and after every sequence of guesses
  applied to it, every session has lives of at least 0, and so has every status
  returned along the way. A wrong letter in a session in progress takes exactly one life
  with no clamping, and the result is not negative because a session in progress has at
  least one life; a wrong word takes two and the result is clamped at 0.
\<close>

theorem lives_never_negative:
  assumes "reachable g"
  shows "(\<forall>gid gs. fst (api_guesses g reqs) gid = Some gs \<longrightarrow> 0 \<le> lives gs)
    \<and> (\<forall>r. Inr r \<in> set (snd (api_guesses g reqs)) \<longrightarrow> 0 \<le> status_lives r)
    \<and> (\<forall>req gs raw.
          g (guess_game_id req) = Some gs \<and> in_progress gs
          \<and> lower (strip (letter req)) = raw \<and> length raw = 1 \<and> isalpha raw
          \<and> raw |\<notin>| guessed gs \<and> \<not> str_contains (secret gs) raw
        \<longrightarrow> fst (api_guess g req)
              = g(guess_game_id req \<mapsto> gs\<lparr>guessed := finsert raw (guessed gs), lives := lives gs - 1\<rparr>)
            \<and> 0 \<le> lives gs - 1)
    \<and> (\<forall>req gs raw.
          g (guess_game_id req) = Some gs \<and> in_progress gs
          \<and> lower (strip (letter req)) = raw \<and> 2 \<le> length raw \<and> isalpha raw
          \<and> raw \<noteq> secret gs
        \<longrightarrow> fst (api_guess g req) = g(guess_game_id req \<mapsto> gs\<lparr>lives := max 0 (lives gs - 2)\<rparr>))"
proof -
  note inv = reachable_lives [OF assms]
  note seq = api_guesses_inv [OF inv, of reqs]
  have letter_step: "\<forall>req gs raw.
          g (guess_game_id req) = Some gs \<and> in_progress gs
          \<and> lower (strip (letter req)) = raw \<and> length raw = 1 \<and> isalpha raw
          \<and> raw |\<notin>| guessed gs \<and> \<not> str_contains (secret gs) raw
        \<longrightarrow> fst (api_guess g req)
              = g(guess_game_id req \<mapsto> gs\<lparr>guessed := finsert raw (guessed gs), lives := lives gs - 1\<rparr>)
            \<and> 0 \<le> lives gs - 1"
  proof (intro allI impI)
    fix req :: GuessRequest and gs raw
    assume a: "g (guess_game_id req) = Some gs \<and> in_progress gs
          \<and> lower (strip (letter req)) = raw \<and> length raw = 1 \<and> isalpha raw
          \<and> raw |\<notin>| guessed gs \<and> \<not> str_contains (secret gs) raw"
    then have ne: "raw \<noteq> []" by auto
    have "fst (api_guess g req)
        = g(guess_game_id req \<mapsto> gs\<lparr>guessed := finsert raw (guessed gs), lives := lives gs - 1\<rparr>)"
      using api_guess_in_progress [of g req gs raw] a ne by simp
    moreover have "0 \<le> lives gs - 1"
      using a in_progress_lives [of gs] by simp
    ultimately show "fst (api_guess g req)
        = g(guess_game_id req \<mapsto> gs\<lparr>guessed := finsert raw (guessed gs), lives := lives gs - 1\<rparr>)
      \<and> 0 \<le> lives gs - 1"
      by simp
  qed
  have word_step: "\<forall>req gs raw.
          g (guess_game_id req) = Some gs \<and> in_progress gs
          \<and> lower (strip (letter req)) = raw \<and> 2 \<le> length raw \<and> isalpha raw
          \<and> raw \<noteq> secret gs
        \<longrightarrow> fst (api_guess g req) = g(guess_game_id req \<mapsto> gs\<lparr>lives := max 0 (lives gs - 2)\<rparr>)"
  proof (intro allI impI)
    fix req :: GuessRequest and gs raw
    assume a: "g (guess_game_id req) = Some gs \<and> in_progress gs
          \<and> lower (strip (letter req)) = raw \<and> 2 \<le> length raw \<and> isalpha raw
          \<and> raw \<noteq> secret gs"
    then have ne: "raw \<noteq> []" "length raw \<noteq> 1" by auto
    show "fst (api_guess g req) = g(guess_game_id req \<mapsto> gs\<lparr>lives := max 0 (lives gs - 2)\<rparr>)"
      using api_guess_in_progress [of g req gs raw] a ne by simp
  qed
  show ?thesis
    by (rule conjI [OF conjunct1 [OF seq] conjI [OF conjunct2 [OF seq] conjI [OF letter_step word_step]]])
qed

theorem lives_never_negative_witness:
  "reachable (fst (api_new \<lparr>files = [''words_normal.txt'' \<mapsto> [''Banana '']], draw = 0, uuid = ''0f8a11c2''\<rparr>
                     Map.empty \<lparr>new_difficulty = ''normal''\<rparr>))
   \<and> fst (api_guesses
          (fst (api_new \<lparr>files = [''words_normal.txt'' \<mapsto> [''Banana '']], draw = 0, uuid = ''0f8a11c2''\<rparr>
                     Map.empty \<lparr>new_difficulty = ''normal''\<rparr>))
          (map (\<lambda>l. \<lparr>guess_game_id = ''0f8a11c2'', letter = l\<rparr>)
             [''z'', ''q'', ''x'', ''w'', ''v'', ''k'', ''j'', ''y'', ''zebras''])) ''0f8a11c2''
     = Some \<lparr>difficulty = ''normal'', secret = ''banana'', lives = 0,
             guessed = {|''z'', ''q'', ''x'', ''w'', ''v'', ''k'', ''j''|}\<rparr>
   \<and> 0 \<le> lives \<lparr>difficulty = ''normal'', secret = ''banana'', lives = 0,
             guessed = {|''z'', ''q'', ''x'', ''w'', ''v'', ''k'', ''j''|}\<rparr>"
proof -
  let ?w = "\<lparr>files = [''words_normal.txt'' \<mapsto> [''Banana '']], draw = 0, uuid = ''0f8a11c2''\<rparr>"
  let ?g = "fst (api_new ?w Map.empty \<lparr>new_difficulty = ''normal''\<rparr>)"
  let ?reqs = "map (\<lambda>l. \<lparr>guess_game_id = ''0f8a11c2'', letter = l\<rparr>)
             [''z'', ''q'', ''x'', ''w'', ''v'', ''k'', ''j'', ''y'', ''zebras'']"
  have reach: "reachable ?g"
    by (rule reachable.new [OF reachable.start])
  have run: "fst (api_guesses ?g ?reqs) ''0f8a11c2''
     = Some \<lparr>difficulty = ''normal'', secret = ''banana'', lives = 0,
             guessed = {|''z'', ''q'', ''x'', ''w'', ''v'', ''k'', ''j''|}\<rparr>"
    by code_simp
  show ?thesis
    using lives_never_negative [OF reach, of ?reqs] reach run
    by simp
qed

subsection \<open>The word source\<close>

text \<open>Lowering a character never yields an upper-case letter, so a lowered string that
  \<^verbatim>\<open>isalpha\<close> accepts consists of lower-case letters.\<close>

lemma lower_char_alpha: "isalpha_char (lower_char c) = islower_char (lower_char c)"
  by (auto simp: isalpha_char_def isupper_char_def islower_char_def lower_char_def Let_def)

lemma lower_char_lower: "islower_char c \<Longrightarrow> lower_char c = c"
  by (auto simp: isupper_char_def islower_char_def lower_char_def Let_def)

lemma lower_not_space: "islower_char c \<Longrightarrow> \<not> isspace c"
  by (auto simp: islower_char_def isspace_def Let_def)

lemma isalpha_lower: "isalpha (lower s) = (lower s \<noteq> [] \<and> list_all islower_char (lower s))"
  by (simp add: isalpha_def lower_def list_all_iff lower_char_alpha)

lemma lower_lowercase: "list_all islower_char w \<Longrightarrow> lower w = w"
  by (induction w) (simp_all add: lower_def lower_char_lower)

lemma strip_lowercase: "list_all islower_char w \<Longrightarrow> strip w = w"
proof (cases w rule: rev_cases)
  case Nil
  then show ?thesis by (simp add: strip_def)
next
  case (snoc ys y)
  assume low: "list_all islower_char w"
  then have "\<not> isspace y"
    using snoc by (simp add: lower_not_space)
  moreover have "dropWhile isspace w = w"
    using low by (cases w) (simp_all add: lower_not_space)
  ultimately show ?thesis
    using snoc by (simp add: strip_def)
qed






lemma word_ok_code:
  "(lower l \<noteq> [] \<and> isalpha (lower l)
     \<and> min_len c \<le> int (length (lower l)) \<and> int (length (lower l)) \<le> max_len c)
   = spec_word_ok c (lower l)"
  by (auto simp: spec_word_ok_def isalpha_lower)

text \<open>
  The loop, started with any words already collected and \<^verbatim>\<open>seen\<close> holding exactly
  those, appends the first occurrences of the admitted words not yet collected.
\<close>

lemma load_loop_spec:
  "load_loop c f (set words) words
   = words @ first_occurrences
       (filter (\<lambda>w. w \<notin> set words)
          (filter (spec_word_ok c) (map (\<lambda>line. lower (strip line)) f)))"
proof (induction f arbitrary: words)
  case Nil
  show ?case by simp
next
  case (Cons line f)
  let ?w = "lower (strip line)"
  let ?rest = "filter (spec_word_ok c) (map (\<lambda>line. lower (strip line)) f)"
  show ?case
  proof (cases "spec_word_ok c ?w")
    case False
    then have "?w = [] \<or> \<not> isalpha ?w \<or> \<not> (min_len c \<le> int (length ?w) \<and> int (length ?w) \<le> max_len c)"
      using word_ok_code [of "strip line" c] by blast
    then have "load_loop c (line # f) (set words) words = load_loop c f (set words) words"
      by (auto simp: Let_def)
    with False Cons.IH [of words] show ?thesis by simp
  next
    case ok: True
    then have pass: "?w \<noteq> []" "isalpha ?w" "min_len c \<le> int (length ?w)" "int (length ?w) \<le> max_len c"
      using word_ok_code [of "strip line" c] by blast+
    show ?thesis
    proof (cases "?w \<in> set words")
      case True
      then have "load_loop c (line # f) (set words) words = load_loop c f (set words) words"
        by (simp add: Let_def)
      with ok True Cons.IH [of words] show ?thesis by simp
    next
      case False
      then have "load_loop c (line # f) (set words) words
          = load_loop c f (set (words @ [?w])) (words @ [?w])"
        using pass by (simp add: Let_def)
      also have "\<dots> = (words @ [?w]) @ first_occurrences (filter (\<lambda>w. w \<notin> set (words @ [?w])) ?rest)"
        by (rule Cons.IH)
      also have "filter (\<lambda>w. w \<notin> set (words @ [?w])) ?rest
          = filter (\<lambda>y. y \<noteq> ?w) (filter (\<lambda>w. w \<notin> set words) ?rest)"
        by (auto intro: filter_cong)
      finally show ?thesis
        using ok False by simp
    qed
  qed
qed

lemma load_loop_words: "load_loop c f {} [] = spec_words c f"
  using load_loop_spec [of c f "[]"] by (simp add: spec_words_def)





text \<open>
  The hard tier has an upper bound: a word of 100 lower-case letters is dropped by the
  length filter of \<^verbatim>\<open>load_words\<close>.
\<close>

theorem hard_tier_unbounded_counterexample:
  "list_all islower_char (replicate 100 (CHR ''a''))
   \<and> 7 \<le> length (replicate 100 (CHR ''a''))
   \<and> load_words [''words_hard.txt'' \<mapsto> [replicate 100 (CHR ''a'')]] ''hard'' = Inr []"
  by code_simp

text \<open>
  C6, as the table has it. There are exactly three tiers: easy with lengths 5 to 6 and
  10 lives, normal with lengths 6 to 8 and 7 lives, hard with lengths 7 to 99 and 5
  lives. A word of lower-case letters passes the length filter of a tier exactly when
  its length is within the bounds of that tier; for the hard tier, exactly when it has at
  least 7 and at most 99 letters.
\<close>

theorem difficulty_tiers:
  "dom DIFFICULTY = {''easy'', ''normal'', ''hard''}
   \<and> DIFFICULTY ''easy''
       = Some \<lparr>min_len = 5, max_len = 6, cfg_lives = 10, cfg_file = ''words_easy.txt''\<rparr>
   \<and> DIFFICULTY ''normal''
       = Some \<lparr>min_len = 6, max_len = 8, cfg_lives = 7, cfg_file = ''words_normal.txt''\<rparr>
   \<and> DIFFICULTY ''hard''
       = Some \<lparr>min_len = 7, max_len = 99, cfg_lives = 5, cfg_file = ''words_hard.txt''\<rparr>
   \<and> (\<forall>d c w. DIFFICULTY d = Some c \<and> w \<noteq> [] \<and> list_all islower_char w \<longrightarrow>
         load_words [cfg_file c \<mapsto> [w]] d
           = Inr (if min_len c \<le> int (length w) \<and> int (length w) \<le> max_len c then [w] else []))
   \<and> (\<forall>w. w \<noteq> [] \<and> list_all islower_char w \<longrightarrow>
         load_words [''words_hard.txt'' \<mapsto> [w]] ''hard''
           = Inr (if 7 \<le> length w \<and> length w \<le> 99 then [w] else []))"
proof -
  have tab: "DIFFICULTY ''easy''
       = Some \<lparr>min_len = 5, max_len = 6, cfg_lives = 10, cfg_file = ''words_easy.txt''\<rparr>"
    "DIFFICULTY ''normal''
       = Some \<lparr>min_len = 6, max_len = 8, cfg_lives = 7, cfg_file = ''words_normal.txt''\<rparr>"
    "DIFFICULTY ''hard''
       = Some \<lparr>min_len = 7, max_len = 99, cfg_lives = 5, cfg_file = ''words_hard.txt''\<rparr>"
    by (simp_all add: DIFFICULTY_def)
  have dm: "dom DIFFICULTY = {''easy'', ''normal'', ''hard''}"
    by (auto simp: DIFFICULTY_def dom_def)
  have gen: "\<forall>d c w. DIFFICULTY d = Some c \<and> w \<noteq> [] \<and> list_all islower_char w \<longrightarrow>
         load_words [cfg_file c \<mapsto> [w]] d
           = Inr (if min_len c \<le> int (length w) \<and> int (length w) \<le> max_len c then [w] else [])"
  proof (intro allI impI)
    fix d c w
    assume a: "DIFFICULTY d = Some c \<and> w \<noteq> [] \<and> list_all islower_char w"
    then have n: "lower (strip w) = w"
      by (simp add: strip_lowercase lower_lowercase)
    have "load_words [cfg_file c \<mapsto> [w]] d = Inr (spec_words c [w])"
      using a by (simp add: load_words_def load_loop_words)
    also have "spec_words c [w]
        = (if min_len c \<le> int (length w) \<and> int (length w) \<le> max_len c then [w] else [])"
      using a by (simp add: spec_words_def n spec_word_ok_def)
    finally show "load_words [cfg_file c \<mapsto> [w]] d
           = Inr (if min_len c \<le> int (length w) \<and> int (length w) \<le> max_len c then [w] else [])" .
  qed
  have hard: "\<forall>w. w \<noteq> [] \<and> list_all islower_char w \<longrightarrow>
         load_words [''words_hard.txt'' \<mapsto> [w]] ''hard''
           = Inr (if 7 \<le> length w \<and> length w \<le> 99 then [w] else [])"
  proof (intro allI impI)
    fix w :: string
    assume a: "w \<noteq> [] \<and> list_all islower_char w"
    from gen tab(3) a
    have "load_words [cfg_file \<lparr>min_len = 7, max_len = 99, cfg_lives = 5, cfg_file = ''words_hard.txt''\<rparr> \<mapsto> [w]] ''hard''
           = Inr (if min_len \<lparr>min_len = 7, max_len = 99, cfg_lives = 5, cfg_file = ''words_hard.txt''\<rparr> \<le> int (length w)
                    \<and> int (length w) \<le> max_len \<lparr>min_len = 7, max_len = 99, cfg_lives = 5, cfg_file = ''words_hard.txt''\<rparr>
                  then [w] else [])"
      by blast
    then show "load_words [''words_hard.txt'' \<mapsto> [w]] ''hard''
           = Inr (if 7 \<le> length w \<and> length w \<le> 99 then [w] else [])"
      by simp
  qed
  show ?thesis
    by (rule conjI [OF dm conjI [OF tab(1) conjI [OF tab(2) conjI [OF tab(3) conjI [OF gen hard]]]]])
qed

theorem difficulty_tiers_witness:
  "load_words [''words_hard.txt'' \<mapsto> [''sunrise'']] ''hard'' = Inr [''sunrise'']
   \<and> load_words [''words_hard.txt'' \<mapsto> [''summer'']] ''hard'' = Inr []"
proof -
  have a: "list_all islower_char ''sunrise''" "list_all islower_char ''summer''"
    by code_simp+
  show ?thesis
    using difficulty_tiers a by simp
qed

subsection \<open>Restart\<close>









end
